theory Spec2Isabelle
  imports Complex_Main
begin

section \<open>Errors the analysed code can raise\<close>

text \<open>
  The source file defines no exception class and contains no \<^verbatim>\<open>raise\<close> statement.
  The only exceptions that can leave its functions come from the operations it calls:
  \<^verbatim>\<open>Graph.neighbors\<close> on an id that is not a node (networkx raises
  \<^verbatim>\<open>NetworkXError\<close>), \<^verbatim>\<open>camino[-1]\<close> on an empty list, and the float division
  \<^verbatim>\<open>1.0 / (1.0 + resistencia_total)\<close> when the divisor is zero.
\<close>

datatype error = NetworkXError | IndexError | ZeroDivisionError

section \<open>The undirected graph held by a circuit\<close>

text \<open>
  \<^verbatim>\<open>self.grafo = nx.Graph()\<close>. The library keeps two insertion-ordered dictionaries:
  the nodes, and for each node its neighbours. \<open>nodes\<close> is the key order of the first,
  \<open>adj g n\<close> the key order of the second at \<open>n\<close>, \<open>attr_pos\<close> the optional
  \<^verbatim>\<open>'pos'\<close> attribute of a node.
\<close>

record 'a grafo =
  nodes :: "'a list"
  adj :: "'a \<Rightarrow> 'a list"
  attr_pos :: "'a \<rightharpoonup> real \<times> real"

definition grafo_vacio :: "'a grafo" where
  "grafo_vacio = \<lparr>nodes = [], adj = (\<lambda>_. []), attr_pos = Map.empty\<rparr>"

text \<open>Storing a key in an insertion-ordered dictionary: an existing key keeps its place.\<close>

definition dict_put :: "'a \<Rightarrow> 'a list \<Rightarrow> 'a list" where
  "dict_put k ks = (if k \<in> set ks then ks else ks @ [k])"

text \<open>\<^verbatim>\<open>Graph.add_node(n)\<close>: a new node gets an empty neighbour dictionary; an existing one is left alone.\<close>

definition add_node :: "'a grafo \<Rightarrow> 'a \<Rightarrow> 'a grafo" where
  "add_node g n =
     (if n \<in> set (nodes g) then g
      else g\<lparr>nodes := nodes g @ [n], adj := (adj g)(n := [])\<rparr>)"

text \<open>\<^verbatim>\<open>Graph.add_edge(u, v)\<close>: missing endpoints are added as nodes, then each endpoint is
  entered in the other's neighbour dictionary.\<close>

definition add_edge :: "'a grafo \<Rightarrow> 'a \<Rightarrow> 'a \<Rightarrow> 'a grafo" where
  "add_edge g u v =
     (let g1 = add_node g u;
          g2 = add_node g1 v;
          g3 = g2\<lparr>adj := (adj g2)(u := dict_put v (adj g2 u))\<rparr>
      in g3\<lparr>adj := (adj g3)(v := dict_put u (adj g3 v))\<rparr>)"

text \<open>\<^verbatim>\<open>Graph.neighbors(n)\<close> raises when \<open>n\<close> is not a node.\<close>

definition neighbors :: "'a grafo \<Rightarrow> 'a \<Rightarrow> error + 'a list" where
  "neighbors g n = (if n \<in> set (nodes g) then Inr (adj g n) else Inl NetworkXError)"

text \<open>\<^verbatim>\<open>Graph.has_edge(u, v)\<close> answers False, without raising, when \<open>u\<close> is not a node.\<close>

definition has_edge :: "'a grafo \<Rightarrow> 'a \<Rightarrow> 'a \<Rightarrow> bool" where
  "has_edge g u v = (u \<in> set (nodes g) \<and> v \<in> set (adj g u))"

section \<open>CircuitoElectronico\<close>

text \<open>
  Resistances are Python floats; they are idealised here as real numbers, so rounding,
  infinities and NaN are outside the model.
\<close>

record 'a circuito =
  nombre :: string
  grafo :: "'a grafo"
  componentes :: "'a \<rightharpoonup> string"
  conexiones :: "'a \<times> 'a \<rightharpoonup> real"

definition nuevo_circuito :: "string \<Rightarrow> 'a circuito" where
  "nuevo_circuito n =
     \<lparr>nombre = n, grafo = grafo_vacio, componentes = Map.empty, conexiones = Map.empty\<rparr>"

text \<open>\<^verbatim>\<open>agregar_componente(id_componente, tipo, posicion=None)\<close>: three assignments, no test of
  whether the id is already there.\<close>

definition agregar_componente ::
  "'a circuito \<Rightarrow> 'a \<Rightarrow> string \<Rightarrow> (real \<times> real) option \<Rightarrow> 'a circuito" where
  "agregar_componente c id_componente tipo posicion =
     (let g = add_node (grafo c) id_componente;
          c1 = c\<lparr>grafo := g, componentes := (componentes c)(id_componente \<mapsto> tipo)\<rparr>
      in case posicion of
           None \<Rightarrow> c1
         | Some p \<Rightarrow> c1\<lparr>grafo := g\<lparr>attr_pos := (attr_pos g)(id_componente \<mapsto> p)\<rparr>\<rparr>)"

text \<open>\<^verbatim>\<open>agregar_conexion(comp1, comp2, resistencia=1.0)\<close>: the weight is stored under the
  ordered tuple \<^verbatim>\<open>(comp1, comp2)\<close>.\<close>

definition agregar_conexion :: "'a circuito \<Rightarrow> 'a \<Rightarrow> 'a \<Rightarrow> real \<Rightarrow> 'a circuito" where
  "agregar_conexion c comp1 comp2 resistencia =
     c\<lparr>grafo := add_edge (grafo c) comp1 comp2,
       conexiones := (conexiones c)((comp1, comp2) \<mapsto> resistencia)\<rparr>"

section \<open>AnalizadorHamiltoniano\<close>

text \<open>Python truth value of a result that is \<^verbatim>\<open>None\<close> or a list.\<close>

fun truthy :: "'a list option \<Rightarrow> bool" where
  "truthy None = False"
| "truthy (Some xs) = (xs \<noteq> [])"

text \<open>
  The shape shared by both loops of the search:
  \<^verbatim>\<open>for x in xs: r = body(x); if r: return r\<close> followed by \<^verbatim>\<open>return None\<close>.
  An exception in the body leaves the loop at once.
\<close>

primrec primer_resultado ::
  "('a \<Rightarrow> error + 'b list option) \<Rightarrow> 'a list \<Rightarrow> error + 'b list option" where
  "primer_resultado f [] = Inr None"
| "primer_resultado f (x # xs) =
     (case f x of
        Inl e \<Rightarrow> Inl e
      | Inr r \<Rightarrow> if truthy r then Inr r else primer_resultado f xs)"

lemma primer_resultado_cong [fundef_cong]:
  "xs = ys \<Longrightarrow> (\<And>x. x \<in> set ys \<Longrightarrow> f x = g x) \<Longrightarrow> primer_resultado f xs = primer_resultado g ys"
  by (induction ys arbitrary: xs) (auto split: sum.splits)

text \<open>Every id the search can step on: the nodes and whatever their neighbour lists name.\<close>

definition alcance :: "'a grafo \<Rightarrow> 'a set" where
  "alcance g = set (nodes g) \<union> (\<Union>n \<in> set (nodes g). set (adj g n))"

text \<open>
  The nested function \<^verbatim>\<open>backtrack(camino, visitados)\<close>; \<^verbatim>\<open>nodos\<close> is \<open>nodes g\<close>.
  The recursion is as deep as the path is long. Limits of the interpreter (recursion
  depth, memory, time) are outside the model.
\<close>

function backtrack :: "'a grafo \<Rightarrow> 'a list \<Rightarrow> 'a set \<Rightarrow> error + 'a list option" where
  "backtrack g camino visitados =
     (if length camino = length (nodes g) then Inr (Some camino)
      else if camino = [] then Inl IndexError
      else case neighbors g (last camino) of
             Inl e \<Rightarrow> Inl e
           | Inr vecinos \<Rightarrow>
               primer_resultado
                 (\<lambda>vecino. if vecino \<in> visitados then Inr None
                            else backtrack g (camino @ [vecino]) (insert vecino visitados))
                 vecinos)"
  by pat_completeness auto
termination
proof (relation "measure (\<lambda>(g, camino, visitados). card (alcance g - visitados))")
  show "wf (measure (\<lambda>(g, camino, visitados). card (alcance g - visitados)))"
    by simp
next
  fix g :: "'a grafo" and camino visitados vecinos vecino
  assume nb: "neighbors g (last camino) = Inr vecinos"
    and v: "vecino \<in> set vecinos" and nv: "vecino \<notin> visitados"
  from nb have "last camino \<in> set (nodes g)" and "vecinos = adj g (last camino)"
    by (auto simp: neighbors_def split: if_splits)
  with v have "vecino \<in> alcance g"
    by (auto simp: alcance_def)
  moreover have "finite (alcance g)"
    by (simp add: alcance_def)
  ultimately have "card (alcance g - insert vecino visitados) < card (alcance g - visitados)"
    using nv by (intro psubset_card_mono) auto
  then show "((g, camino @ [vecino], insert vecino visitados), (g, camino, visitados))
      \<in> measure (\<lambda>(g, camino, visitados). card (alcance g - visitados))"
    by simp
qed

declare backtrack.simps [simp del]

definition encontrar_camino_hamiltoniano :: "'a circuito \<Rightarrow> error + 'a list option" where
  "encontrar_camino_hamiltoniano c =
     (let nodos = nodes (grafo c)
      in if length nodos < 2 then Inr (Some nodos)
         else primer_resultado (\<lambda>inicio. backtrack (grafo c) [inicio] {inicio}) nodos)"

text \<open>\<^verbatim>\<open>encontrar_ciclo_hamiltoniano\<close>: one call of the path search, then one edge test.
  \<^verbatim>\<open>if not camino\<close> is taken for \<^verbatim>\<open>None\<close> and for the empty list.\<close>

definition encontrar_ciclo_hamiltoniano :: "'a circuito \<Rightarrow> error + 'a list option" where
  "encontrar_ciclo_hamiltoniano c =
     (case encontrar_camino_hamiltoniano c of
        Inl e \<Rightarrow> Inl e
      | Inr camino \<Rightarrow>
          if \<not> truthy camino then Inr None
          else (case camino of
                  None \<Rightarrow> Inr None
                | Some p \<Rightarrow>
                    if has_edge (grafo c) (last p) (hd p) then Inr (Some (p @ [hd p]))
                    else Inr None))"

text \<open>\<^verbatim>\<open>es_hamiltoniano\<close>: the body of the \<^verbatim>\<open>try\<close> block, then the bare \<^verbatim>\<open>except\<close>
  that turns every exception into \<^verbatim>\<open>False\<close>.\<close>

definition es_hamiltoniano_try :: "'a circuito \<Rightarrow> error + bool" where
  "es_hamiltoniano_try c =
     (case encontrar_camino_hamiltoniano c of
        Inl e \<Rightarrow> Inl e
      | Inr camino \<Rightarrow> Inr (camino \<noteq> None))"

definition es_hamiltoniano :: "'a circuito \<Rightarrow> error + bool" where
  "es_hamiltoniano c =
     (case es_hamiltoniano_try c of
        Inl e \<Rightarrow> Inr False
      | Inr b \<Rightarrow> Inr b)"

text \<open>The \<^verbatim>\<open>if / elif / else\<close> of the loop body of \<^verbatim>\<open>calcular_eficiencia_energetica\<close>:
  the tuple as given, then the tuple reversed, then \<^verbatim>\<open>1.0\<close>.\<close>

definition resistencia_arista :: "'a circuito \<Rightarrow> 'a \<Rightarrow> 'a \<Rightarrow> real" where
  "resistencia_arista c a b =
     (case conexiones c (a, b) of
        Some r \<Rightarrow> r
      | None \<Rightarrow> (case conexiones c (b, a) of Some r \<Rightarrow> r | None \<Rightarrow> 1))"

text \<open>\<^verbatim>\<open>for i in range(len(camino) - 1)\<close>, accumulating from \<^verbatim>\<open>0\<close>.\<close>

definition resistencia_total :: "'a circuito \<Rightarrow> 'a list \<Rightarrow> real" where
  "resistencia_total c camino =
     foldl (\<lambda>total i. total + resistencia_arista c (camino ! i) (camino ! (i + 1)))
       0 [0 ..< length camino - 1]"

definition calcular_eficiencia_energetica :: "'a circuito \<Rightarrow> 'a list \<Rightarrow> error + real" where
  "calcular_eficiencia_energetica c camino =
     (if camino = [] \<or> length camino < 2 then Inr 0
      else let total = resistencia_total c camino
           in if 1 + total = 0 then Inl ZeroDivisionError
              else Inr (1 / (1 + total)))"

section \<open>Properties of paths, and the circuits used as examples\<close>

text \<open>Every consecutive pair of the sequence is an edge of the graph.\<close>

fun aristas_consecutivas :: "'a grafo \<Rightarrow> 'a list \<Rightarrow> bool" where
  "aristas_consecutivas g (x # y # zs) = (has_edge g x y \<and> aristas_consecutivas g (y # zs))"
| "aristas_consecutivas g _ = True"

text \<open>A Hamiltonian path: every node exactly once, along edges.\<close>

definition es_camino_hamiltoniano :: "'a grafo \<Rightarrow> 'a list \<Rightarrow> bool" where
  "es_camino_hamiltoniano g p =
     (distinct p \<and> set p = set (nodes g) \<and> aristas_consecutivas g p)"

text \<open>The ring A-B-C-D-A, built in that order.\<close>

definition circuito_anillo :: "string circuito" where
  "circuito_anillo =
     agregar_conexion (agregar_conexion (agregar_conexion (agregar_conexion
       (agregar_componente (agregar_componente (agregar_componente (agregar_componente
          (nuevo_circuito ''anillo'') ''A'' ''Resistor'' None) ''B'' ''Capacitor'' None)
          ''C'' ''Inductor'' None) ''D'' ''Resistor'' None)
       ''A'' ''B'' 1) ''B'' ''C'' 2) ''C'' ''D'' 3) ''D'' ''A'' 4"

text \<open>The same four components with the edges A-B, B-D, D-C, C-B, D-A, added in that order.\<close>

definition circuito_cuerda :: "string circuito" where
  "circuito_cuerda =
     agregar_conexion (agregar_conexion (agregar_conexion (agregar_conexion (agregar_conexion
       (agregar_componente (agregar_componente (agregar_componente (agregar_componente
          (nuevo_circuito ''cuerda'') ''A'' ''Resistor'' None) ''B'' ''Capacitor'' None)
          ''C'' ''Inductor'' None) ''D'' ''Resistor'' None)
       ''A'' ''B'' 1) ''B'' ''D'' 1) ''D'' ''C'' 1) ''C'' ''B'' 1) ''D'' ''A'' 1"

text \<open>A circuit with a single component.\<close>

definition circuito_un_nodo :: "string circuito" where
  "circuito_un_nodo = agregar_componente (nuevo_circuito ''uno'') ''A'' ''Resistor'' None"

text \<open>An ill-formed graph value: node 1 lists 4 as a neighbour, and 4 is not a node.\<close>

definition grafo_corrupto :: "nat grafo" where
  "grafo_corrupto =
     \<lparr>nodes = [1, 2, 3], adj = (\<lambda>n. if n = 1 then [4] else []), attr_pos = Map.empty\<rparr>"

definition circuito_corrupto :: "nat circuito" where
  "circuito_corrupto =
     \<lparr>nombre = ''corrupto'', grafo = grafo_corrupto,
      componentes = Map.empty, conexiones = Map.empty\<rparr>"

section \<open>Method calls on a circuit and its analyser\<close>

text \<open>
  A call of one of the methods of \<^verbatim>\<open>CircuitoElectronico\<close> or of the
  \<^verbatim>\<open>AnalizadorHamiltoniano\<close> built on it: what the call hands back (a value, or the
  exception that leaves it) and the circuit after the call.
\<close>

datatype 'a llamada =
    Agregar_componente 'a string "(real \<times> real) option"
  | Agregar_conexion 'a 'a real
  | Es_hamiltoniano
  | Encontrar_camino_hamiltoniano
  | Encontrar_ciclo_hamiltoniano
  | Calcular_eficiencia_energetica "'a list"

datatype 'a valor = Ninguno | Booleano bool | Secuencia "'a list" | Numero real

fun valor_camino :: "'a list option \<Rightarrow> 'a valor" where
  "valor_camino None = Ninguno"
| "valor_camino (Some p) = Secuencia p"

fun ejecutar :: "'a circuito \<Rightarrow> 'a llamada \<Rightarrow> (error + 'a valor) \<times> 'a circuito" where
  "ejecutar c (Agregar_componente i t p) = (Inr Ninguno, agregar_componente c i t p)"
| "ejecutar c (Agregar_conexion a b r) = (Inr Ninguno, agregar_conexion c a b r)"
| "ejecutar c Es_hamiltoniano = (map_sum id Booleano (es_hamiltoniano c), c)"
| "ejecutar c Encontrar_camino_hamiltoniano =
     (map_sum id valor_camino (encontrar_camino_hamiltoniano c), c)"
| "ejecutar c Encontrar_ciclo_hamiltoniano =
     (map_sum id valor_camino (encontrar_ciclo_hamiltoniano c), c)"
| "ejecutar c (Calcular_eficiencia_energetica p) =
     (map_sum id Numero (calcular_eficiencia_energetica c p), c)"

section \<open>Well-formed graphs, the weight of a path, and further examples\<close>

text \<open>What every graph built by \<^verbatim>\<open>add_node\<close> and \<^verbatim>\<open>add_edge\<close> satisfies: no node is
  listed twice and every neighbour is a node.\<close>

definition bien_formado :: "'a grafo \<Rightarrow> bool" where
  "bien_formado g =
     (distinct (nodes g) \<and> (\<forall>n \<in> set (nodes g). set (adj g n) \<subseteq> set (nodes g)))"



text \<open>Two components, connected first as (A, B) with weight 5, then as (B, A) with weight 7.\<close>

definition circuito_dos_sentidos :: "string circuito" where
  "circuito_dos_sentidos =
     agregar_conexion (agregar_conexion
       (agregar_componente (agregar_componente
          (nuevo_circuito ''dos sentidos'') ''A'' ''Resistor'' None) ''B'' ''Capacitor'' None)
       ''A'' ''B'' 5) ''B'' ''A'' 7"


section \<open>The order of the search, as the specification words it\<close>

text \<open>
  Every full-length extension of a partial path, listed in the order in which a
  depth-first walk meets them when the neighbours of the last node are taken in
  edge-insertion order and visited ids are skipped. A last node that is not a node of
  the graph has no extension.
\<close>

function caminos_desde :: "'a grafo \<Rightarrow> 'a list \<Rightarrow> 'a set \<Rightarrow> 'a list list" where
  "caminos_desde g camino visitados =
     (if length camino = length (nodes g) then [camino]
      else if camino = [] \<or> last camino \<notin> set (nodes g) then []
      else concat (map (\<lambda>v. if v \<in> visitados then []
                              else caminos_desde g (camino @ [v]) (insert v visitados))
                       (adj g (last camino))))"
  by pat_completeness auto
termination
proof (relation "measure (\<lambda>(g, camino, visitados). card (alcance g - visitados))")
  show "wf (measure (\<lambda>(g, camino, visitados). card (alcance g - visitados)))"
    by simp
next
  fix g :: "'a grafo" and camino visitados v
  assume "\<not> (camino = [] \<or> last camino \<notin> set (nodes g))"
    and v: "v \<in> set (adj g (last camino))" and nv: "v \<notin> visitados"
  then have "v \<in> alcance g"
    by (auto simp: alcance_def)
  moreover have "finite (alcance g)"
    by (simp add: alcance_def)
  ultimately have "card (alcance g - insert v visitados) < card (alcance g - visitados)"
    using nv by (intro psubset_card_mono) auto
  then show "((g, camino @ [v], insert v visitados), (g, camino, visitados))
      \<in> measure (\<lambda>(g, camino, visitados). card (alcance g - visitados))"
    by simp
qed

declare caminos_desde.simps [simp del]

text \<open>All of them, the start nodes taken in insertion order.\<close>

definition todos_los_caminos :: "'a grafo \<Rightarrow> 'a list list" where
  "todos_los_caminos g = concat (map (\<lambda>inicio. caminos_desde g [inicio] {inicio}) (nodes g))"

fun primero :: "'a list \<Rightarrow> 'a option" where
  "primero [] = None"
| "primero (x # _) = Some x"

text \<open>A circuit as the result of a sequence of method calls on a new circuit.\<close>

definition construir :: "string \<Rightarrow> 'a llamada list \<Rightarrow> 'a circuito" where
  "construir n ops = foldl (\<lambda>c l. snd (ejecutar c l)) (nuevo_circuito n) ops"

text \<open>The calls that build the ring.\<close>

definition llamadas_anillo :: "string llamada list" where
  "llamadas_anillo =
     [Agregar_componente ''A'' ''Resistor'' None, Agregar_componente ''B'' ''Capacitor'' None,
      Agregar_componente ''C'' ''Inductor'' None, Agregar_componente ''D'' ''Resistor'' None,
      Agregar_conexion ''A'' ''B'' 1, Agregar_conexion ''B'' ''C'' 2,
      Agregar_conexion ''C'' ''D'' 3, Agregar_conexion ''D'' ''A'' 4]"

section \<open>Evaluating the examples\<close>

lemmas construir_defs = nuevo_circuito_def grafo_vacio_def agregar_componente_def
  agregar_conexion_def add_node_def add_edge_def dict_put_def Let_def

lemma primer_resultado_lista: "xs = ys \<Longrightarrow> primer_resultado f xs = primer_resultado f ys"
  by simp

lemma anillo_nodes: "nodes (grafo circuito_anillo) = [''A'', ''B'', ''C'', ''D'']"
  by (simp add: circuito_anillo_def construir_defs)

lemma anillo_adj:
  "adj (grafo circuito_anillo) ''A'' = [''B'', ''D'']"
  "adj (grafo circuito_anillo) ''B'' = [''A'', ''C'']"
  "adj (grafo circuito_anillo) ''C'' = [''B'', ''D'']"
  "adj (grafo circuito_anillo) ''D'' = [''C'', ''A'']"
  by (simp_all add: circuito_anillo_def construir_defs)

lemma anillo_camino:
  "encontrar_camino_hamiltoniano circuito_anillo = Inr (Some [''A'', ''B'', ''C'', ''D''])"
  by (simp add: encontrar_camino_hamiltoniano_def anillo_nodes anillo_adj backtrack.simps
      neighbors_def cong: primer_resultado_lista)

lemma un_nodo_nodes: "nodes (grafo circuito_un_nodo) = [''A'']"
  by (simp add: circuito_un_nodo_def construir_defs)

lemma camino_corrupto:
  "encontrar_camino_hamiltoniano circuito_corrupto = Inl NetworkXError"
  by (simp add: encontrar_camino_hamiltoniano_def circuito_corrupto_def grafo_corrupto_def
      backtrack.simps neighbors_def)

lemma cuerda_nodes: "nodes (grafo circuito_cuerda) = [''A'', ''B'', ''C'', ''D'']"
  by (simp add: circuito_cuerda_def construir_defs)

lemma cuerda_adj:
  "adj (grafo circuito_cuerda) ''A'' = [''B'', ''D'']"
  "adj (grafo circuito_cuerda) ''B'' = [''A'', ''D'', ''C'']"
  "adj (grafo circuito_cuerda) ''C'' = [''D'', ''B'']"
  "adj (grafo circuito_cuerda) ''D'' = [''B'', ''C'', ''A'']"
  by (simp_all add: circuito_cuerda_def construir_defs)

lemma cuerda_camino:
  "encontrar_camino_hamiltoniano circuito_cuerda = Inr (Some [''A'', ''B'', ''D'', ''C''])"
  by (simp add: encontrar_camino_hamiltoniano_def cuerda_nodes cuerda_adj backtrack.simps
      neighbors_def cong: primer_resultado_lista)

lemma cuerda_ciclo_existe:
  "es_camino_hamiltoniano (grafo circuito_cuerda) [''A'', ''B'', ''C'', ''D''] \<and>
   has_edge (grafo circuito_cuerda) ''D'' ''A''"
  by (auto simp: es_camino_hamiltoniano_def has_edge_def cuerda_nodes cuerda_adj)

lemma cuerda_no_cierra: "\<not> has_edge (grafo circuito_cuerda) ''C'' ''A''"
  by (simp add: has_edge_def cuerda_nodes cuerda_adj)

lemma anillo_cierra: "has_edge (grafo circuito_anillo) ''D'' ''A''"
  by (simp add: has_edge_def anillo_nodes anillo_adj)

lemma un_nodo_campos:
  "adj (grafo circuito_un_nodo) ''A'' = []"
  "componentes circuito_un_nodo ''A'' = Some ''Resistor''"
  by (simp_all add: circuito_un_nodo_def construir_defs)



lemma dos_sentidos_conexiones:
  "conexiones circuito_dos_sentidos (''A'', ''B'') = Some 5"
  "conexiones circuito_dos_sentidos (''B'', ''A'') = Some 7"
  by (simp_all add: circuito_dos_sentidos_def construir_defs)

lemma dos_sentidos_grafo:
  "nodes (grafo circuito_dos_sentidos) = [''A'', ''B'']"
  "adj (grafo circuito_dos_sentidos) ''A'' = [''B'']"
  "adj (grafo circuito_dos_sentidos) ''B'' = [''A'']"
  by (simp_all add: circuito_dos_sentidos_def construir_defs)


lemma resistencia_total_dos: "resistencia_total c [a, b] = resistencia_arista c a b"
  by (simp add: resistencia_total_def)

lemma construir_anillo: "construir ''anillo'' llamadas_anillo = circuito_anillo"
  by (simp add: construir_def llamadas_anillo_def circuito_anillo_def)

section \<open>The path found by the search\<close>

lemma primer_resultado_Some:
  "primer_resultado f xs = Inr (Some r) \<Longrightarrow> \<exists>x \<in> set xs. f x = Inr (Some r) \<and> r \<noteq> []"
  by (induction xs) (auto split: sum.splits if_splits)

lemma aristas_consecutivas_nth:
  "aristas_consecutivas g p = (\<forall>i. Suc i < length p \<longrightarrow> has_edge g (p ! i) (p ! Suc i))"
proof (induction g p rule: aristas_consecutivas.induct)
  case (1 g x y zs)
  show ?case
  proof
    assume a: "aristas_consecutivas g (x # y # zs)"
    show "\<forall>i. Suc i < length (x # y # zs) \<longrightarrow> has_edge g ((x # y # zs) ! i) ((x # y # zs) ! Suc i)"
    proof (intro allI impI)
      fix i assume "Suc i < length (x # y # zs)"
      with a 1 show "has_edge g ((x # y # zs) ! i) ((x # y # zs) ! Suc i)"
        by (cases i) auto
    qed
  next
    assume r: "\<forall>i. Suc i < length (x # y # zs) \<longrightarrow> has_edge g ((x # y # zs) ! i) ((x # y # zs) ! Suc i)"
    from r [rule_format, of 0] have "has_edge g x y" by simp
    moreover have "\<forall>i. Suc i < length (y # zs) \<longrightarrow> has_edge g ((y # zs) ! i) ((y # zs) ! Suc i)"
    proof (intro allI impI)
      fix i assume "Suc i < length (y # zs)"
      with r [rule_format, of "Suc i"] show "has_edge g ((y # zs) ! i) ((y # zs) ! Suc i)" by simp
    qed
    ultimately show "aristas_consecutivas g (x # y # zs)" using 1 by simp
  qed
qed simp_all

lemma aristas_consecutivas_snoc:
  "p \<noteq> [] \<Longrightarrow>
   aristas_consecutivas g (p @ [v]) = (aristas_consecutivas g p \<and> has_edge g (last p) v)"
proof (induction g p rule: aristas_consecutivas.induct)
  case (1 g x y zs)
  then show ?case by simp
qed simp_all

lemma backtrack_correcto:
  "backtrack g camino visitados = Inr (Some r) \<Longrightarrow> distinct camino \<Longrightarrow>
   set camino \<subseteq> visitados \<Longrightarrow> aristas_consecutivas g camino \<Longrightarrow>
   distinct r \<and> length r = length (nodes g) \<and> aristas_consecutivas g r"
proof (induction g camino visitados rule: backtrack.induct)
  case (1 g camino visitados)
  show ?case
  proof (cases "length camino = length (nodes g)")
    case True
    with "1.prems" show ?thesis by (simp add: backtrack.simps)
  next
    case False
    with "1.prems"(1) have ne: "camino \<noteq> []"
      by (auto simp: backtrack.simps split: if_splits)
    from False ne "1.prems"(1) obtain vecinos where
      nb: "neighbors g (last camino) = Inr vecinos" and
      pr: "primer_resultado (\<lambda>vecino. if vecino \<in> visitados then Inr None
             else backtrack g (camino @ [vecino]) (insert vecino visitados)) vecinos = Inr (Some r)"
      by (auto simp: backtrack.simps split: sum.splits)
    from primer_resultado_Some [OF pr] obtain v where
      v: "v \<in> set vecinos" and nv: "v \<notin> visitados" and
      rec: "backtrack g (camino @ [v]) (insert v visitados) = Inr (Some r)"
      by (auto split: if_splits)
    from nb v have edge: "has_edge g (last camino) v"
      by (auto simp: neighbors_def has_edge_def split: if_splits)
    have "distinct (camino @ [v])" using "1.prems"(2,3) nv by auto
    moreover have "set (camino @ [v]) \<subseteq> insert v visitados" using "1.prems"(3) by auto
    moreover have "aristas_consecutivas g (camino @ [v])"
      using "1.prems"(4) ne edge by (simp add: aristas_consecutivas_snoc)
    ultimately show ?thesis
      using "1.IH" [OF False ne nb v nv rec] by blast
  qed
qed

text \<open>
  Claim C1. When the graph has at least two nodes and the search returns a sequence, the
  sequence has no repeated id, has as many elements as the graph has nodes, and each
  element is joined to the next by an edge of the graph. When the graph has fewer than
  two nodes the result is the node list itself, whatever the neighbour lists hold: the
  search is not entered.
\<close>

theorem camino_hamiltoniano_correcto:
  "(2 \<le> length (nodes (grafo c)) \<and> encontrar_camino_hamiltoniano c = Inr (Some p) \<longrightarrow>
      distinct p \<and> length p = length (nodes (grafo c)) \<and>
      (\<forall>i. Suc i < length p \<longrightarrow> has_edge (grafo c) (p ! i) (p ! Suc i))) \<and>
   (length (nodes (grafo c)) < 2 \<longrightarrow>
      encontrar_camino_hamiltoniano c = Inr (Some (nodes (grafo c))))"
proof (intro conjI impI)
  assume a: "2 \<le> length (nodes (grafo c)) \<and> encontrar_camino_hamiltoniano c = Inr (Some p)"
  then have "primer_resultado (\<lambda>inicio. backtrack (grafo c) [inicio] {inicio}) (nodes (grafo c))
      = Inr (Some p)"
    by (auto simp: encontrar_camino_hamiltoniano_def Let_def split: if_splits)
  from primer_resultado_Some [OF this] obtain inicio where
    "backtrack (grafo c) [inicio] {inicio} = Inr (Some p)" by blast
  from backtrack_correcto [OF this]
  have r: "distinct p \<and> length p = length (nodes (grafo c)) \<and> aristas_consecutivas (grafo c) p"
    by simp
  from r show "distinct p" by simp
  from r show "length p = length (nodes (grafo c))" by simp
  from r show "\<forall>i. Suc i < length p \<longrightarrow> has_edge (grafo c) (p ! i) (p ! Suc i)"
    by (simp add: aristas_consecutivas_nth)
next
  assume "length (nodes (grafo c)) < 2"
  then show "encontrar_camino_hamiltoniano c = Inr (Some (nodes (grafo c)))"
    by (simp add: encontrar_camino_hamiltoniano_def Let_def)
qed

theorem camino_hamiltoniano_correcto_witness:
  "2 \<le> length (nodes (grafo circuito_anillo)) \<and>
   encontrar_camino_hamiltoniano circuito_anillo = Inr (Some [''A'', ''B'', ''C'', ''D'']) \<and>
   distinct [''A'', ''B'', ''C'', ''D''] \<and>
   length [''A'', ''B'', ''C'', ''D''] = length (nodes (grafo circuito_anillo)) \<and>
   has_edge (grafo circuito_anillo) ''A'' ''B'' \<and>
   has_edge (grafo circuito_anillo) ''B'' ''C'' \<and>
   has_edge (grafo circuito_anillo) ''C'' ''D'' \<and>
   length (nodes (grafo circuito_un_nodo)) < 2 \<and>
   encontrar_camino_hamiltoniano circuito_un_nodo = Inr (Some [''A''])"
proof -
  have n: "2 \<le> length (nodes (grafo circuito_anillo))"
    by (simp add: anillo_nodes)
  note t = camino_hamiltoniano_correcto [of circuito_anillo "[''A'', ''B'', ''C'', ''D'']"]
  from t n anillo_camino
  have d: "distinct [''A'', ''B'', ''C'', ''D''] \<and>
      length [''A'', ''B'', ''C'', ''D''] = length (nodes (grafo circuito_anillo))"
    and e: "\<forall>i. Suc i < length [''A'', ''B'', ''C'', ''D''] \<longrightarrow>
      has_edge (grafo circuito_anillo) ([''A'', ''B'', ''C'', ''D''] ! i)
        ([''A'', ''B'', ''C'', ''D''] ! Suc i)"
    by blast+
  from e [rule_format, of 0] e [rule_format, of 1] e [rule_format, of 2]
  have edges: "has_edge (grafo circuito_anillo) ''A'' ''B'' \<and>
      has_edge (grafo circuito_anillo) ''B'' ''C'' \<and> has_edge (grafo circuito_anillo) ''C'' ''D''"
    by simp
  have u: "length (nodes (grafo circuito_un_nodo)) < 2"
    by (simp add: un_nodo_nodes)
  with camino_hamiltoniano_correcto [of circuito_un_nodo]
  have "encontrar_camino_hamiltoniano circuito_un_nodo = Inr (Some [''A''])"
    by (simp add: un_nodo_nodes)
  with n anillo_camino d edges u show ?thesis by simp
qed

section \<open>The existence check\<close>

text \<open>
  Claim C8. The existence check never hands an exception to its caller: whatever the
  circuit, it returns a boolean. If the path search raises, the boolean is False; if the
  search returns, the boolean says whether what it returned is something other than None.
\<close>

theorem es_hamiltoniano_no_propaga:
  "(\<exists>b. es_hamiltoniano c = Inr b) \<and>
   (\<forall>e. encontrar_camino_hamiltoniano c = Inl e \<longrightarrow> es_hamiltoniano c = Inr False) \<and>
   (\<forall>r. encontrar_camino_hamiltoniano c = Inr r \<longrightarrow> es_hamiltoniano c = Inr (r \<noteq> None))"
  by (auto simp: es_hamiltoniano_def es_hamiltoniano_try_def split: sum.splits)

theorem es_hamiltoniano_no_propaga_witness:
  "encontrar_camino_hamiltoniano circuito_corrupto = Inl NetworkXError \<and>
   es_hamiltoniano circuito_corrupto = Inr False \<and>
   encontrar_camino_hamiltoniano (nuevo_circuito ''vacio'' :: nat circuito) = Inr (Some []) \<and>
   es_hamiltoniano (nuevo_circuito ''vacio'' :: nat circuito) = Inr True"
proof -
  have vacio: "encontrar_camino_hamiltoniano (nuevo_circuito ''vacio'' :: nat circuito) = Inr (Some [])"
    by (simp add: encontrar_camino_hamiltoniano_def nuevo_circuito_def grafo_vacio_def)
  from es_hamiltoniano_no_propaga [of circuito_corrupto] camino_corrupto
    es_hamiltoniano_no_propaga [of "nuevo_circuito ''vacio'' :: nat circuito"] vacio
  show ?thesis by simp
qed

section \<open>The cycle derived from the path\<close>

text \<open>
  Claim C2. The cycle search returns a sequence exactly when the path search returned a
  path whose last node has an edge to its first, and the sequence is then that path with
  its first id appended. When the path search returns without such a path, the cycle
  search returns None. The last part is an instance: in \<open>circuito_cuerda\<close> the path
  found ends at C, which has no edge to A, so no cycle is reported, although
  A, B, C, D is a Hamiltonian path whose last node D has an edge to A.
\<close>

theorem ciclo_hamiltoniano_deriva:
  "(encontrar_ciclo_hamiltoniano c = Inr (Some ciclo) \<longleftrightarrow>
      (\<exists>p. encontrar_camino_hamiltoniano c = Inr (Some p) \<and> p \<noteq> [] \<and>
           has_edge (grafo c) (last p) (hd p) \<and> ciclo = p @ [hd p])) \<and>
   (encontrar_camino_hamiltoniano c = Inr r \<and>
      \<not> (\<exists>p. r = Some p \<and> p \<noteq> [] \<and> has_edge (grafo c) (last p) (hd p)) \<longrightarrow>
      encontrar_ciclo_hamiltoniano c = Inr None) \<and>
   (encontrar_camino_hamiltoniano circuito_cuerda = Inr (Some [''A'', ''B'', ''D'', ''C'']) \<and>
    encontrar_ciclo_hamiltoniano circuito_cuerda = Inr None \<and>
    es_camino_hamiltoniano (grafo circuito_cuerda) [''A'', ''B'', ''C'', ''D''] \<and>
    has_edge (grafo circuito_cuerda) ''D'' ''A'')"
proof (intro conjI)
  show "encontrar_ciclo_hamiltoniano c = Inr (Some ciclo) \<longleftrightarrow>
      (\<exists>p. encontrar_camino_hamiltoniano c = Inr (Some p) \<and> p \<noteq> [] \<and>
           has_edge (grafo c) (last p) (hd p) \<and> ciclo = p @ [hd p])"
    by (auto simp: encontrar_ciclo_hamiltoniano_def split: sum.splits option.splits if_splits)
  show "encontrar_camino_hamiltoniano c = Inr r \<and>
      \<not> (\<exists>p. r = Some p \<and> p \<noteq> [] \<and> has_edge (grafo c) (last p) (hd p)) \<longrightarrow>
      encontrar_ciclo_hamiltoniano c = Inr None"
    by (auto simp: encontrar_ciclo_hamiltoniano_def split: sum.splits option.splits if_splits)
  show "encontrar_camino_hamiltoniano circuito_cuerda = Inr (Some [''A'', ''B'', ''D'', ''C''])"
    by (rule cuerda_camino)
  show "encontrar_ciclo_hamiltoniano circuito_cuerda = Inr None"
    by (simp add: encontrar_ciclo_hamiltoniano_def cuerda_camino cuerda_no_cierra)
  show "es_camino_hamiltoniano (grafo circuito_cuerda) [''A'', ''B'', ''C'', ''D'']"
    using cuerda_ciclo_existe by simp
  show "has_edge (grafo circuito_cuerda) ''D'' ''A''"
    using cuerda_ciclo_existe by simp
qed

theorem ciclo_hamiltoniano_deriva_witness:
  "encontrar_camino_hamiltoniano circuito_anillo = Inr (Some [''A'', ''B'', ''C'', ''D'']) \<and>
   has_edge (grafo circuito_anillo) ''D'' ''A'' \<and>
   encontrar_ciclo_hamiltoniano circuito_anillo = Inr (Some [''A'', ''B'', ''C'', ''D'', ''A'']) \<and>
   encontrar_camino_hamiltoniano circuito_cuerda = Inr (Some [''A'', ''B'', ''D'', ''C'']) \<and>
   \<not> has_edge (grafo circuito_cuerda) ''C'' ''A'' \<and>
   encontrar_ciclo_hamiltoniano circuito_cuerda = Inr None"
proof -
  have "\<exists>p. encontrar_camino_hamiltoniano circuito_anillo = Inr (Some p) \<and> p \<noteq> [] \<and>
      has_edge (grafo circuito_anillo) (last p) (hd p) \<and>
      [''A'', ''B'', ''C'', ''D'', ''A''] = p @ [hd p]"
    using anillo_camino anillo_cierra by simp
  with ciclo_hamiltoniano_deriva [of circuito_anillo "[''A'', ''B'', ''C'', ''D'', ''A'']"]
  have a: "encontrar_ciclo_hamiltoniano circuito_anillo = Inr (Some [''A'', ''B'', ''C'', ''D'', ''A''])"
    by blast
  have "\<not> (\<exists>p. Some [''A'', ''B'', ''D'', ''C''] = Some p \<and> p \<noteq> [] \<and>
      has_edge (grafo circuito_cuerda) (last p) (hd p))"
    using cuerda_no_cierra by simp
  with ciclo_hamiltoniano_deriva [of circuito_cuerda _ "Some [''A'', ''B'', ''D'', ''C'']"]
    cuerda_camino
  have b: "encontrar_ciclo_hamiltoniano circuito_cuerda = Inr None"
    by blast
  from a b anillo_camino anillo_cierra cuerda_camino cuerda_no_cierra show ?thesis
    by simp
qed

section \<open>Adding components and connections\<close>




text \<open>
  The claim that a connection to an absent id, or from an id to itself, fails does not
  hold: both calls below return None and raise nothing; the first adds X as a node, the
  second stores a self-loop on A.
\<close>

theorem agregar_conexion_sin_control_counterexample:
  "''X'' \<notin> set (nodes (grafo circuito_un_nodo)) \<and>
   fst (ejecutar circuito_un_nodo (Agregar_conexion ''A'' ''X'' 1)) = Inr Ninguno \<and>
   nodes (grafo (snd (ejecutar circuito_un_nodo (Agregar_conexion ''A'' ''X'' 1)))) = [''A'', ''X''] \<and>
   fst (ejecutar circuito_un_nodo (Agregar_conexion ''A'' ''A'' 1)) = Inr Ninguno \<and>
   has_edge (grafo (snd (ejecutar circuito_un_nodo (Agregar_conexion ''A'' ''A'' 1)))) ''A'' ''A'' \<and>
   conexiones (snd (ejecutar circuito_un_nodo (Agregar_conexion ''A'' ''A'' 1))) (''A'', ''A'') = Some 1"
  by (simp add: un_nodo_nodes un_nodo_campos agregar_conexion_def add_edge_def add_node_def
      dict_put_def has_edge_def Let_def)

text \<open>
  Claim C4, amended. \<^verbatim>\<open>agregar_conexion\<close> never fails. Endpoints that are not yet
  nodes are appended to the node list, first \<open>a\<close>, then \<open>b\<close>; afterwards the graph has
  the edge in both directions, the weight read for the pair in the orientation
  \<open>(a, b)\<close> is \<open>r\<close>, the entries of all other pairs of ids are as before, and the
  component map is untouched.
\<close>

theorem agregar_conexion_efecto:
  "(let c' = snd (ejecutar c (Agregar_conexion a b r)); g = grafo c in
     fst (ejecutar c (Agregar_conexion a b r)) = Inr Ninguno \<and>
     nodes (grafo c') =
       nodes g @ (if a \<in> set (nodes g) then [] else [a])
               @ (if b \<in> set (nodes g) \<or> b = a then [] else [b]) \<and>
     has_edge (grafo c') a b \<and> has_edge (grafo c') b a \<and>
     conexiones c' (a, b) = Some r \<and>
     resistencia_arista c' a b = r \<and>
     (\<forall>k. k \<noteq> (a, b) \<and> k \<noteq> (b, a) \<longrightarrow> conexiones c' k = conexiones c k) \<and>
     componentes c' = componentes c)"
  by (auto simp: agregar_conexion_def add_edge_def add_node_def dict_put_def has_edge_def
      resistencia_arista_def Let_def)

theorem agregar_conexion_efecto_witness:
  "nodes (grafo (snd (ejecutar circuito_un_nodo (Agregar_conexion ''A'' ''X'' 2)))) = [''A'', ''X''] \<and>
   has_edge (grafo (snd (ejecutar circuito_un_nodo (Agregar_conexion ''A'' ''X'' 2)))) ''A'' ''X'' \<and>
   conexiones (snd (ejecutar circuito_un_nodo (Agregar_conexion ''A'' ''X'' 2))) (''A'', ''X'') = Some 2 \<and>
   conexiones (snd (ejecutar circuito_un_nodo (Agregar_conexion ''A'' ''X'' 2))) (''A'', ''B'')
     = conexiones circuito_un_nodo (''A'', ''B'')"
  using agregar_conexion_efecto [of circuito_un_nodo "''A''" "''X''" 2]
  by (simp add: Let_def un_nodo_nodes)

text \<open>
  Claim C5 at a concrete input. After connecting (A, B) with weight 5 and then (B, A)
  with weight 7, the graph has the one edge A-B, but the weight map holds two entries
  for it, and the weight read for a path depends on its direction: 5 from A to B (the
  older value), 7 from B to A.
\<close>

theorem conexion_dos_sentidos_duplicada:
  "conexiones circuito_dos_sentidos (''A'', ''B'') = Some 5 \<and>
   conexiones circuito_dos_sentidos (''B'', ''A'') = Some 7 \<and>
   adj (grafo circuito_dos_sentidos) ''A'' = [''B''] \<and>
   adj (grafo circuito_dos_sentidos) ''B'' = [''A''] \<and>
   resistencia_arista circuito_dos_sentidos ''A'' ''B'' = 5 \<and>
   resistencia_arista circuito_dos_sentidos ''B'' ''A'' = 7 \<and>
   calcular_eficiencia_energetica circuito_dos_sentidos [''A'', ''B''] = Inr (1 / 6) \<and>
   calcular_eficiencia_energetica circuito_dos_sentidos [''B'', ''A''] = Inr (1 / 8)"
  by (simp add: dos_sentidos_conexiones dos_sentidos_grafo resistencia_arista_def
      calcular_eficiencia_energetica_def resistencia_total_dos)

section \<open>Energy efficiency of a path\<close>








section \<open>The analyses only read the circuit\<close>


section \<open>Determinism of the search\<close>

lemma bien_formado_add_node: "bien_formado g \<Longrightarrow> bien_formado (add_node g n)"
  by (auto simp: bien_formado_def add_node_def)

lemma bien_formado_add_edge: "bien_formado g \<Longrightarrow> bien_formado (add_edge g u v)"
  by (auto simp: bien_formado_def add_edge_def add_node_def dict_put_def Let_def
      split: if_splits)

lemma bien_formado_ejecutar:
  "bien_formado (grafo c) \<Longrightarrow> bien_formado (grafo (snd (ejecutar c l)))"
proof (cases l)
  case (Agregar_componente i t pos)
  assume "bien_formado (grafo c)"
  then have "bien_formado (add_node (grafo c) i)"
    by (rule bien_formado_add_node)
  then show ?thesis using Agregar_componente
    by (cases pos) (simp_all add: agregar_componente_def Let_def bien_formado_def)
next
  case (Agregar_conexion a b r)
  assume "bien_formado (grafo c)"
  then show ?thesis using Agregar_conexion
    by (simp add: agregar_conexion_def bien_formado_add_edge)
qed simp_all

lemma bien_formado_foldl:
  "bien_formado (grafo c) \<Longrightarrow> bien_formado (grafo (foldl (\<lambda>c l. snd (ejecutar c l)) c ops))"
proof (induction ops arbitrary: c)
  case Nil
  then show ?case by simp
next
  case (Cons l ops)
  from Cons.prems have "bien_formado (grafo (snd (ejecutar c l)))"
    by (rule bien_formado_ejecutar)
  from Cons.IH [OF this] show ?case by simp
qed

lemma bien_formado_construir: "bien_formado (grafo (construir n ops))"
  unfolding construir_def
  by (rule bien_formado_foldl) (simp add: nuevo_circuito_def grafo_vacio_def bien_formado_def)

lemma grafo_ejecutar:
  assumes "grafo c = grafo d"
  shows "grafo (snd (ejecutar c l)) = grafo (snd (ejecutar d l))"
proof (cases l)
  case (Agregar_componente i t pos)
  with assms show ?thesis
    by (cases pos) (simp_all add: agregar_componente_def Let_def)
next
  case (Agregar_conexion a b r)
  with assms show ?thesis
    by (simp add: agregar_conexion_def)
qed (simp_all add: assms)

lemma grafo_foldl:
  "grafo c = grafo d \<Longrightarrow>
   grafo (foldl (\<lambda>c l. snd (ejecutar c l)) c ops) = grafo (foldl (\<lambda>c l. snd (ejecutar c l)) d ops)"
proof (induction ops arbitrary: c d)
  case Nil
  then show ?case by simp
next
  case (Cons l ops)
  from Cons.prems have "grafo (snd (ejecutar c l)) = grafo (snd (ejecutar d l))"
    by (rule grafo_ejecutar)
  from Cons.IH [OF this] show ?case by simp
qed

lemma grafo_construir: "grafo (construir n ops) = grafo (construir n' ops)"
  unfolding construir_def
  by (rule grafo_foldl) (simp add: nuevo_circuito_def)

lemma camino_depende_del_grafo:
  assumes "grafo c = grafo d"
  shows "encontrar_camino_hamiltoniano c = encontrar_camino_hamiltoniano d"
  unfolding encontrar_camino_hamiltoniano_def assms ..

lemma caminos_desde_lleno:
  "length camino = length (nodes g) \<Longrightarrow> caminos_desde g camino visitados = [camino]"
  by (subst caminos_desde.simps) simp

lemma caminos_desde_paso:
  "length camino \<noteq> length (nodes g) \<Longrightarrow> camino \<noteq> [] \<Longrightarrow>
   last camino \<in> set (nodes g) \<Longrightarrow>
   caminos_desde g camino visitados =
     concat (map (\<lambda>v. if v \<in> visitados then []
                          else caminos_desde g (camino @ [v]) (insert v visitados))
                 (adj g (last camino)))"
  by (subst caminos_desde.simps) simp

lemma caminos_desde_nada:
  "length camino \<noteq> length (nodes g) \<Longrightarrow> camino = [] \<or> last camino \<notin> set (nodes g) \<Longrightarrow>
   caminos_desde g camino visitados = []"
  by (subst caminos_desde.simps) simp

lemma caminos_desde_extiende:
  "p \<in> set (caminos_desde g camino visitados) \<Longrightarrow> \<exists>s. p = camino @ s"
proof (induction g camino visitados rule: caminos_desde.induct)
  case (1 g camino visitados)
  show ?case
  proof (cases "length camino = length (nodes g)")
    case True
    with "1.prems" show ?thesis by (simp add: caminos_desde_lleno)
  next
    case False
    show ?thesis
    proof (cases "camino = [] \<or> last camino \<notin> set (nodes g)")
      case True
      with False "1.prems" show ?thesis by (simp add: caminos_desde_nada)
    next
      case ok: False
      with False "1.prems" obtain v where
        v: "v \<in> set (adj g (last camino))" and nv: "v \<notin> visitados" and
        p: "p \<in> set (caminos_desde g (camino @ [v]) (insert v visitados))"
        by (auto simp: caminos_desde_paso split: if_splits)
      from "1.IH" [OF False ok v nv p] show ?thesis by auto
    qed
  qed
qed

lemma primer_resultado_primero:
  assumes "\<And>x. x \<in> set xs \<Longrightarrow> f x = Inr (primero (h x))"
    and "\<And>x p. x \<in> set xs \<Longrightarrow> p \<in> set (h x) \<Longrightarrow> p \<noteq> []"
  shows "primer_resultado f xs = Inr (primero (concat (map h xs)))"
  using assms
proof (induction xs)
  case Nil
  then show ?case by simp
next
  case (Cons x xs)
  have resto: "primer_resultado f xs = Inr (primero (concat (map h xs)))"
    using Cons.prems by (intro Cons.IH) auto
  have fx: "f x = Inr (primero (h x))"
    using Cons.prems(1) by simp
  show ?case
  proof (cases "h x")
    case Nil
    with resto fx show ?thesis by simp
  next
    case (Cons p ps)
    with Cons.prems(2) [of x p] have "p \<noteq> []" by simp
    with Cons fx show ?thesis by simp
  qed
qed

lemma backtrack_primero:
  "bien_formado g \<Longrightarrow> camino \<noteq> [] \<Longrightarrow> set camino \<subseteq> set (nodes g) \<Longrightarrow>
   backtrack g camino visitados = Inr (primero (caminos_desde g camino visitados))"
proof (induction g camino visitados rule: backtrack.induct)
  case (1 g camino visitados)
  show ?case
  proof (cases "length camino = length (nodes g)")
    case True
    then have "backtrack g camino visitados = Inr (Some camino)"
      by (subst backtrack.simps) simp
    moreover from True have "caminos_desde g camino visitados = [camino]"
      by (rule caminos_desde_lleno)
    ultimately show ?thesis by simp
  next
    case False
    from "1.prems"(2,3) have ult: "last camino \<in> set (nodes g)"
      using last_in_set by blast
    then have nb: "neighbors g (last camino) = Inr (adj g (last camino))"
      by (simp add: neighbors_def)
    let ?f = "\<lambda>vecino. if vecino \<in> visitados then Inr None
                else backtrack g (camino @ [vecino]) (insert vecino visitados)"
    let ?h = "\<lambda>v. if v \<in> visitados then []
                else caminos_desde g (camino @ [v]) (insert v visitados)"
    have "primer_resultado ?f (adj g (last camino))
        = Inr (primero (concat (map ?h (adj g (last camino)))))"
    proof (rule primer_resultado_primero)
      fix v assume v: "v \<in> set (adj g (last camino))"
      with "1.prems"(1) ult have "v \<in> set (nodes g)"
        by (auto simp: bien_formado_def)
      with "1.prems"(3) have sub: "set (camino @ [v]) \<subseteq> set (nodes g)" by simp
      show "?f v = Inr (primero (?h v))"
      proof (cases "v \<in> visitados")
        case True
        then show ?thesis by simp
      next
        case nv: False
        from "1.IH" [OF False "1.prems"(2) nb v nv "1.prems"(1) _ sub] nv
        show ?thesis by simp
      qed
    next
      fix v p assume "v \<in> set (adj g (last camino))" and "p \<in> set (?h v)"
      then have "p \<in> set (caminos_desde g (camino @ [v]) (insert v visitados))"
        by (auto split: if_splits)
      from caminos_desde_extiende [OF this] show "p \<noteq> []" by auto
    qed
    moreover have "backtrack g camino visitados = primer_resultado ?f (adj g (last camino))"
      using False "1.prems"(2) nb by (subst backtrack.simps) simp
    moreover have "caminos_desde g camino visitados = concat (map ?h (adj g (last camino)))"
      using False "1.prems"(2) ult by (rule caminos_desde_paso)
    ultimately show ?thesis by simp
  qed
qed

lemma camino_primero:
  assumes "bien_formado (grafo c)" and "2 \<le> length (nodes (grafo c))"
  shows "encontrar_camino_hamiltoniano c = Inr (primero (todos_los_caminos (grafo c)))"
proof -
  have "primer_resultado (\<lambda>inicio. backtrack (grafo c) [inicio] {inicio}) (nodes (grafo c))
      = Inr (primero (concat (map (\<lambda>inicio. caminos_desde (grafo c) [inicio] {inicio})
          (nodes (grafo c)))))"
  proof (rule primer_resultado_primero)
    fix x assume "x \<in> set (nodes (grafo c))"
    with assms(1) show "backtrack (grafo c) [x] {x}
        = Inr (primero (caminos_desde (grafo c) [x] {x}))"
      by (intro backtrack_primero) simp_all
  next
    fix x p assume "p \<in> set (caminos_desde (grafo c) [x] {x})"
    from caminos_desde_extiende [OF this] show "p \<noteq> []" by auto
  qed
  with assms(2) show ?thesis
    by (simp add: encontrar_camino_hamiltoniano_def todos_los_caminos_def Let_def)
qed

lemma map_lista: "xs = ys \<Longrightarrow> map f xs = map f ys"
  by simp

lemma anillo_todos:
  "todos_los_caminos (grafo circuito_anillo) =
     [[''A'', ''B'', ''C'', ''D''], [''A'', ''D'', ''C'', ''B''],
      [''B'', ''A'', ''D'', ''C''], [''B'', ''C'', ''D'', ''A''],
      [''C'', ''B'', ''A'', ''D''], [''C'', ''D'', ''A'', ''B''],
      [''D'', ''C'', ''B'', ''A''], [''D'', ''A'', ''B'', ''C'']]"
  by (simp add: todos_los_caminos_def anillo_nodes anillo_adj caminos_desde.simps
      cong: map_lista)

text \<open>
  Claim C9. The search is deterministic. Two circuits built by the same sequence of
  calls give the same result, whatever else differs (the name); calling the search a
  second time gives the same answer as the first call; and for a circuit built by the
  methods, with at least two nodes, the answer is the first entry of the list of all
  full-length paths taken in start-node insertion order and neighbour insertion order
  (or None when that list is empty), so in particular the search does not raise.
\<close>

theorem busqueda_determinista:
  "encontrar_camino_hamiltoniano (construir n ops)
     = encontrar_camino_hamiltoniano (construir n' ops) \<and>
   fst (ejecutar (snd (ejecutar c Encontrar_camino_hamiltoniano)) Encontrar_camino_hamiltoniano)
     = fst (ejecutar c Encontrar_camino_hamiltoniano) \<and>
   (2 \<le> length (nodes (grafo (construir n ops))) \<longrightarrow>
      encontrar_camino_hamiltoniano (construir n ops)
        = Inr (primero (todos_los_caminos (grafo (construir n ops)))))"
proof (intro conjI impI)
  show "encontrar_camino_hamiltoniano (construir n ops)
      = encontrar_camino_hamiltoniano (construir n' ops)"
    by (rule camino_depende_del_grafo) (rule grafo_construir)
  show "fst (ejecutar (snd (ejecutar c Encontrar_camino_hamiltoniano)) Encontrar_camino_hamiltoniano)
      = fst (ejecutar c Encontrar_camino_hamiltoniano)"
    by simp
  assume "2 \<le> length (nodes (grafo (construir n ops)))"
  with bien_formado_construir [of n ops]
  show "encontrar_camino_hamiltoniano (construir n ops)
      = Inr (primero (todos_los_caminos (grafo (construir n ops))))"
    by (rule camino_primero)
qed

theorem busqueda_determinista_witness:
  "2 \<le> length (nodes (grafo (construir ''anillo'' llamadas_anillo))) \<and>
   encontrar_camino_hamiltoniano (construir ''anillo'' llamadas_anillo)
     = Inr (Some [''A'', ''B'', ''C'', ''D'']) \<and>
   encontrar_camino_hamiltoniano (construir ''otro nombre'' llamadas_anillo)
     = Inr (Some [''A'', ''B'', ''C'', ''D'']) \<and>
   primero (todos_los_caminos (grafo (construir ''anillo'' llamadas_anillo)))
     = Some [''A'', ''B'', ''C'', ''D'']"
proof -
  have n: "2 \<le> length (nodes (grafo (construir ''anillo'' llamadas_anillo)))"
    by (simp add: construir_anillo anillo_nodes)
  note t = busqueda_determinista [of "''anillo''" llamadas_anillo "''otro nombre''" circuito_anillo]
  from t have eq: "encontrar_camino_hamiltoniano (construir ''anillo'' llamadas_anillo)
      = encontrar_camino_hamiltoniano (construir ''otro nombre'' llamadas_anillo)"
    by (rule conjunct1)
  from t have "2 \<le> length (nodes (grafo (construir ''anillo'' llamadas_anillo))) \<longrightarrow>
      encontrar_camino_hamiltoniano (construir ''anillo'' llamadas_anillo)
        = Inr (primero (todos_los_caminos (grafo (construir ''anillo'' llamadas_anillo))))"
    by (rule conjunct2 [THEN conjunct2])
  then have ch: "encontrar_camino_hamiltoniano (construir ''anillo'' llamadas_anillo)
      = Inr (primero (todos_los_caminos (grafo (construir ''anillo'' llamadas_anillo))))"
    using n by (rule mp)
  have pr: "primero (todos_los_caminos (grafo (construir ''anillo'' llamadas_anillo)))
      = Some [''A'', ''B'', ''C'', ''D'']"
    by (simp add: construir_anillo anillo_todos)
  have a: "encontrar_camino_hamiltoniano (construir ''anillo'' llamadas_anillo)
      = Inr (Some [''A'', ''B'', ''C'', ''D''])"
    by (simp only: ch pr)
  have b: "encontrar_camino_hamiltoniano (construir ''otro nombre'' llamadas_anillo)
      = Inr (Some [''A'', ''B'', ''C'', ''D''])"
    by (simp only: eq [symmetric] a)
  from n a b pr show ?thesis by (intro conjI)
qed

end
